theory Spec2Isabelle
  imports Complex_Main "HOL-Library.AList"
begin

section \<open>Lineage ledger (storage/schema.py)\<close>

text \<open>
  The metadata dictionary of a lineage record. The merge engine is the only producer of
  lineage records in the repository and always writes these four keys;
  \<open>secondary.get('canonical_name')\<close> is \<open>None\<close> when the key is missing.
\<close>

record lineage_metadata =
  merged_canonical_name :: "string option"
  primary_canonical_name :: "string option"
  transaction_count_transferred :: int
  amount_transferred :: real

text \<open>The dataclass \<open>EntityLineage\<close>.\<close>

record entity_lineage =
  lineage_id :: string
  timestamp :: string
  old_entity_id :: string
  new_entity_id :: string
  operation :: string
  reason :: string
  confidence :: real
  performed_by :: string
  affected_statement_ids :: "string list"
  metadata :: lineage_metadata
  created_at :: string

text \<open>
  The inner \<open>for record in self.entity_lineage: if record.old_entity_id == current_id: ... break\<close>
  of \<open>resolve_current_entity_id\<close>: the first record, in ledger order, that leaves the
  current id.
\<close>

definition first_newer :: "entity_lineage list \<Rightarrow> string \<Rightarrow> entity_lineage option" where
  "first_newer ledger current_id = find (\<lambda>r. old_entity_id r = current_id) ledger"

text \<open>
  The \<open>while current_id not in visited\<close> loop. Not returning is the value \<open>None\<close>;
  that the loop always returns is a theorem below, not part of the definition.
\<close>

partial_function (option) resolve_loop ::
  "entity_lineage list \<Rightarrow> string set \<Rightarrow> string \<Rightarrow> string option" where
  "resolve_loop ledger visited current_id =
     (if current_id \<in> visited then Some current_id
      else (case first_newer ledger current_id of
              None \<Rightarrow> Some current_id
            | Some r \<Rightarrow> resolve_loop ledger (insert current_id visited) (new_entity_id r)))"

definition resolve_current_entity_id :: "entity_lineage list \<Rightarrow> string \<Rightarrow> string option" where
  "resolve_current_entity_id ledger entity_id = resolve_loop ledger {} entity_id"

text \<open>The edge relation of the ledger as the resolver reads it: \<open>b\<close> steps to \<open>a\<close>.\<close>

definition steps_to :: "entity_lineage list \<Rightarrow> string \<Rightarrow> string \<Rightarrow> bool" where
  "steps_to ledger a b = (map_option new_entity_id (first_newer ledger b) = Some a)"


section \<open>Shared helpers\<close>

text \<open>The exceptions the modelled functions can raise: a dictionary subscript on a missing key.\<close>

datatype py_error = KeyError string

text \<open>Python's \<open>f"{n:06d}"\<close> for a non-negative counter: decimal, zero-padded to width six.\<close>

definition digit_char :: "nat \<Rightarrow> char" where
  "digit_char d = ''0123456789'' ! d"

fun decimal :: "nat \<Rightarrow> string" where
  "decimal n = (if n < 10 then [digit_char n] else decimal (n div 10) @ [digit_char (n mod 10)])"

definition fmt06d :: "nat \<Rightarrow> string" where
  "fmt06d n = replicate (6 - length (decimal n)) (CHR ''0'') @ decimal n"

section \<open>Entity merge engine (scripts/hybrid-entity-resolution-with-lineage)\<close>

text \<open>
  An entity record of the registry file: a JSON object, every key optional (the code reads
  each one through \<open>.get\<close> with a default). The key \<open>lineage_id\<close> is the field
  \<open>ent_lineage_id\<close> here. \<open>aliases\<close> is rewritten by the merge as
  \<open>list(set(...))\<close>, whose order is the hash order, so the field is kept as the set of
  its elements. Amounts are JSON numbers, modelled as reals.
\<close>

record entity =
  canonical_name :: "string option"
  aliases :: "string set option"
  transaction_count :: "int option"
  total_amount_usd :: "real option"
  merged_from :: "string list option"
  last_merged :: "string option"
  ent_lineage_id :: "string option"
  status :: "string option"
  superseded_by :: "string option"
  superseded_at :: "string option"

text \<open>One entry of \<open>merge_log\<close>.\<close>

record merge_log_entry =
  primary :: string
  secondary :: string
  similarity :: real
  log_timestamp :: string
  log_lineage_id :: string

text \<open>
  The mutable part of \<open>EntityMergeJobWithLineage\<close>. \<open>clock_reads\<close> counts the calls
  of \<open>datetime.now()\<close> made so far; the reading of the \<open>k\<close>-th call is \<open>now k\<close>,
  where \<open>now\<close> is a parameter of every function that reads the clock.
\<close>

record merge_job =
  entity_lineages :: "entity_lineage list"
  lineage_counter :: nat
  clock_reads :: nat

definition get_transaction_count :: "entity \<Rightarrow> int" where
  "get_transaction_count e = (case transaction_count e of None \<Rightarrow> 0 | Some n \<Rightarrow> n)"

definition get_total_amount_usd :: "entity \<Rightarrow> real" where
  "get_total_amount_usd e = (case total_amount_usd e of None \<Rightarrow> 0 | Some a \<Rightarrow> a)"

definition get_aliases :: "entity \<Rightarrow> string set" where
  "get_aliases e = (case aliases e of None \<Rightarrow> {} | Some a \<Rightarrow> a)"

definition get_merged_from :: "entity \<Rightarrow> string list" where
  "get_merged_from e = (case merged_from e of None \<Rightarrow> [] | Some m \<Rightarrow> m)"

definition get_canonical_name_or_empty :: "entity \<Rightarrow> string" where
  "get_canonical_name_or_empty e = (case canonical_name e of None \<Rightarrow> [] | Some n \<Rightarrow> n)"

text \<open>
  The body of the \<open>for id1, id2, similarity in duplicates\<close> loop after the
  \<open>merged_ids\<close> test (lines 148 to 227). \<open>merged_entities[id1]\<close> raises
  \<open>KeyError\<close> on a missing key. \<open>fmt2f\<close> stands for the float formatting
  \<open>{similarity:.2f}\<close>.

  The values of the dictionary are objects: when \<open>id1 = id2\<close> the names \<open>primary\<close>
  and \<open>secondary\<close> denote one object, so the tombstone fields are written to the record
  that already carries the merged aggregates. Distinct keys hold distinct objects (the
  dictionary comes from \<open>json.load\<close>, and the loop stores each object back under its own
  key), so the dictionary is a map from ids to record values.
\<close>

definition merge_pair ::
  "(nat \<Rightarrow> string) \<Rightarrow> (real \<Rightarrow> string) \<Rightarrow> merge_job \<Rightarrow> (string \<rightharpoonup> entity)
     \<Rightarrow> string \<times> string \<times> real
     \<Rightarrow> py_error + (merge_job \<times> (string \<rightharpoonup> entity) \<times> merge_log_entry)" where
  "merge_pair now fmt2f job merged_entities pair =
     (case pair of (id1, id2, sim) \<Rightarrow>
      (case merged_entities id1 of
         None \<Rightarrow> Inl (KeyError id1)
       | Some entity1 \<Rightarrow>
      (case merged_entities id2 of
         None \<Rightarrow> Inl (KeyError id2)
       | Some entity2 \<Rightarrow>
        (let tx_count1 = get_transaction_count entity1;
             tx_count2 = get_transaction_count entity2;
             primary_id = (if tx_count1 \<ge> tx_count2 then id1 else id2);
             secondary_id = (if tx_count1 \<ge> tx_count2 then id2 else id1);
             primary_e = (if tx_count1 \<ge> tx_count2 then entity1 else entity2);
             secondary_e = (if tx_count1 \<ge> tx_count2 then entity2 else entity1);
             t = clock_reads job;
             lineage = \<lparr> lineage_id = ''lineage_'' @ fmt06d (lineage_counter job),
                         timestamp = now t,
                         old_entity_id = secondary_id,
                         new_entity_id = primary_id,
                         operation = ''merge'',
                         reason = ''Duplicate detection: similarity '' @ fmt2f sim,
                         confidence = sim,
                         performed_by = ''automated_merge'',
                         affected_statement_ids = [],
                         metadata = \<lparr> merged_canonical_name = canonical_name secondary_e,
                                       primary_canonical_name = canonical_name primary_e,
                                       transaction_count_transferred = tx_count2,
                                       amount_transferred = get_total_amount_usd secondary_e \<rparr>,
                         created_at = now (t + 1) \<rparr>;
             primary' = primary_e
               \<lparr> aliases := Some (get_aliases primary_e \<union> get_aliases secondary_e
                                    \<union> {get_canonical_name_or_empty secondary_e}),
                 transaction_count :=
                   Some (get_transaction_count primary_e + get_transaction_count secondary_e),
                 total_amount_usd :=
                   Some (get_total_amount_usd primary_e + get_total_amount_usd secondary_e),
                 merged_from := Some (get_merged_from primary_e @ [secondary_id]),
                 last_merged := Some (now (t + 2)),
                 ent_lineage_id := Some (lineage_id lineage) \<rparr>;
             merged1 = merged_entities(primary_id \<mapsto> primary');
             secondary_obj = (if secondary_id = primary_id then primary' else secondary_e);
             secondary' = secondary_obj
               \<lparr> status := Some ''superseded'',
                 superseded_by := Some primary_id,
                 superseded_at := Some (now (t + 3)),
                 ent_lineage_id := Some (lineage_id lineage) \<rparr>;
             merged2 = merged1(secondary_id \<mapsto> secondary');
             entry = \<lparr> primary = primary_id,
                       secondary = secondary_id,
                       similarity = sim,
                       log_timestamp = now (t + 4),
                       log_lineage_id = lineage_id lineage \<rparr>;
             job' = job \<lparr> entity_lineages := entity_lineages job @ [lineage],
                          lineage_counter := lineage_counter job + 1,
                          clock_reads := t + 5 \<rparr>
         in Inr (job', merged2, entry)))))"

text \<open>
  The loop itself. \<open>merged_ids\<close> is the local set created empty before the loop and
  tested at the head of every iteration; the source has no statement that adds to it, so
  every iteration passes it on unchanged.
\<close>

fun merge_loop ::
  "(nat \<Rightarrow> string) \<Rightarrow> (real \<Rightarrow> string) \<Rightarrow> string set \<Rightarrow> merge_job \<Rightarrow> (string \<rightharpoonup> entity)
     \<Rightarrow> merge_log_entry list \<Rightarrow> (string \<times> string \<times> real) list
     \<Rightarrow> py_error + (merge_job \<times> (string \<rightharpoonup> entity) \<times> merge_log_entry list)" where
  "merge_loop now fmt2f merged_ids job merged_entities merge_log [] =
     Inr (job, merged_entities, merge_log)"
| "merge_loop now fmt2f merged_ids job merged_entities merge_log (pair # rest) =
     (if fst pair \<in> merged_ids \<or> fst (snd pair) \<in> merged_ids
      then merge_loop now fmt2f merged_ids job merged_entities merge_log rest
      else (case merge_pair now fmt2f job merged_entities pair of
              Inl err \<Rightarrow> Inl err
            | Inr (job', merged_entities', entry) \<Rightarrow>
                merge_loop now fmt2f merged_ids job' merged_entities' (merge_log @ [entry]) rest))"

definition merge_duplicates_with_lineage ::
  "(nat \<Rightarrow> string) \<Rightarrow> (real \<Rightarrow> string) \<Rightarrow> merge_job \<Rightarrow> (string \<rightharpoonup> entity)
     \<Rightarrow> (string \<times> string \<times> real) list
     \<Rightarrow> py_error + (merge_job \<times> (string \<rightharpoonup> entity) \<times> merge_log_entry list)" where
  "merge_duplicates_with_lineage now fmt2f job entities duplicates =
     merge_loop now fmt2f {} job entities [] duplicates"

text \<open>
  The report of \<open>run_merge_with_lineage\<close>. The early return on an empty duplicate list
  has only the keys \<open>duplicates_found\<close>, \<open>entities_merged\<close> and \<open>lineage_records\<close>;
  the keys it lacks are \<open>None\<close>.
\<close>

record merge_report =
  report_timestamp :: "string option"
  duplicates_found :: nat
  entities_before :: "nat option"
  entities_after :: "nat option"
  entities_merged :: int
  lineage_records :: "nat option"
  lineage_records_created :: "nat option"
  report_merge_log :: "merge_log_entry list option"

text \<open>Python's \<open>len\<close> of a dictionary.\<close>

definition dict_len :: "('k \<rightharpoonup> 'v) \<Rightarrow> nat" where
  "dict_len m = card (dom m)"

text \<open>
  \<open>run_merge_with_lineage\<close> without its file traffic: \<open>entities\<close> is the dictionary
  read from the registry file, the second component of the result is the dictionary left
  in that file. \<open>_find_duplicates\<close> is inherited from a class that is not part of the
  sources at hand and is a parameter. The clock is read for \<open>last_merge\<close>,
  \<open>generated_at\<close> and the report's \<open>timestamp\<close>, in this order.
\<close>

definition run_merge_with_lineage ::
  "(nat \<Rightarrow> string) \<Rightarrow> (real \<Rightarrow> string) \<Rightarrow> ((string \<rightharpoonup> entity) \<Rightarrow> (string \<times> string \<times> real) list)
     \<Rightarrow> merge_job \<Rightarrow> (string \<rightharpoonup> entity)
     \<Rightarrow> py_error + (merge_job \<times> (string \<rightharpoonup> entity) \<times> merge_report)" where
  "run_merge_with_lineage now fmt2f find_duplicates job entities =
     (let duplicates = find_duplicates entities in
      if duplicates = []
      then Inr (job, entities,
                \<lparr> report_timestamp = None, duplicates_found = 0, entities_before = None,
                  entities_after = None, entities_merged = 0, lineage_records = Some 0,
                  lineage_records_created = None, report_merge_log = None \<rparr>)
      else (case merge_duplicates_with_lineage now fmt2f job entities duplicates of
              Inl err \<Rightarrow> Inl err
            | Inr (job', merged_entities, merge_log) \<Rightarrow>
                Inr (job' \<lparr> clock_reads := clock_reads job' + 3 \<rparr>, merged_entities,
                     \<lparr> report_timestamp = Some (now (clock_reads job' + 2)),
                       duplicates_found = length duplicates,
                       entities_before = Some (dict_len entities),
                       entities_after = Some (dict_len merged_entities),
                       entities_merged = int (dict_len entities) - int (dict_len merged_entities),
                       lineage_records = None,
                       lineage_records_created = Some (length (entity_lineages job')),
                       report_merge_log = Some merge_log \<rparr>)))"

section \<open>Reconciliation decision builder (scripts/reconcile-with-decisions)\<close>

text \<open>
  A field of a canonical record is either a raw JSON value or an object carrying the
  reconciliation metadata; \<open>isinstance(field_data, dict)\<close> tells them apart. The payloads
  the builder never inspects have the type \<open>'v\<close>. The keys \<open>value\<close> and
  \<open>confidence\<close> of the object are the fields \<open>fd_value\<close> and \<open>fd_confidence\<close>.
\<close>

record 'v field_meta =
  fd_value :: "'v option"
  reconciliation_method :: "string option"
  source_observation_id :: "string option"
  fd_confidence :: "real option"
  alternatives :: "'v list option"

datatype 'v field_data = Raw 'v | Meta "'v field_meta"

text \<open>One value of \<open>field_strategies\<close>; its key \<open>confidence\<close> is \<open>fs_confidence\<close>.\<close>

record 'v field_strategy =
  strategy :: string
  chosen_obs :: string
  fs_confidence :: real
  fs_alternatives :: "'v list"

text \<open>The keys of an observation that the builder reads.\<close>

record observation =
  observation_id :: "string option"
  obs_id :: "string option"
  data_source :: "string option"
  observer :: "string option"

record cluster_meta =
  observation_count :: nat
  data_sources :: "string set"
  reconciliation_timestamp :: string

text \<open>
  The dataclass \<open>ReconciliationDecision\<close>; \<open>timestamp\<close>, \<open>confidence\<close> and
  \<open>created_at\<close> carry the prefix \<open>decision_\<close>. \<open>field_strategies\<close> is a
  dictionary in insertion order: an association list written with \<open>AList.update\<close>,
  which replaces the value of a key in place and appends a new key at the end.
\<close>

record 'v reconciliation_decision =
  decision_id :: string
  decision_timestamp :: string
  observation_ids :: "string option list"
  cluster_metadata :: cluster_meta
  field_strategies :: "(string \<times> 'v field_strategy) list"
  created_statement_ids :: "string list"
  decision_confidence :: real
  decision_method :: string
  decision_created_at :: string

text \<open>\<open>obs.get('observation_id') or obs.get('id')\<close>: the empty string is falsy.\<close>

definition obs_ident :: "observation \<Rightarrow> string option" where
  "obs_ident obs =
     (case observation_id obs of
        None \<Rightarrow> obs_id obs
      | Some s \<Rightarrow> if s = [] then obs_id obs else Some s)"

text \<open>\<open>s.split(sep)[0]\<close> for a non-empty separator: the part before its first occurrence.\<close>

fun before_sep :: "string \<Rightarrow> string \<Rightarrow> string" where
  "before_sep sep [] = []"
| "before_sep sep (c # cs) =
     (if take (length sep) (c # cs) = sep then [] else c # before_sep sep cs)"

definition obs_data_source :: "observation \<Rightarrow> string" where
  "obs_data_source obs =
     (case data_source obs of
        Some d \<Rightarrow> d
      | None \<Rightarrow> before_sep ''_v'' (case observer obs of None \<Rightarrow> ''unknown'' | Some ob \<Rightarrow> ob))"

text \<open>
  The dictionary stored in \<open>field_strategies[field_name]\<close> (lines 71 to 80): each
  \<open>field_data.get\<close> with its default.
\<close>

definition field_strategy_entry :: "'v field_meta \<Rightarrow> 'v field_strategy" where
  "field_strategy_entry field_data =
     \<lparr> strategy = (case reconciliation_method field_data of None \<Rightarrow> ''unknown'' | Some m \<Rightarrow> m),
       chosen_obs = (case source_observation_id field_data of None \<Rightarrow> ''unknown'' | Some ob \<Rightarrow> ob),
       fs_confidence = (case fd_confidence field_data of None \<Rightarrow> 1 | Some c \<Rightarrow> c),
       fs_alternatives = (case alternatives field_data of None \<Rightarrow> [] | Some a \<Rightarrow> a) \<rparr>"

text \<open>
  The loop \<open>for field_name in FIELD_SCHEMA.keys()\<close> (lines 65 to 84), with the two
  accumulators \<open>field_strategies\<close> and \<open>created_statement_ids\<close>. \<open>FIELD_SCHEMA\<close> is
  imported from a module that is not part of the sources at hand; its key list is the
  parameter \<open>schema_keys\<close>. \<open>canonical['id']\<close> raises \<open>KeyError\<close> when the record
  has no id; \<open>str_of\<close> stands for the formatting of that value inside the f-string.
\<close>

fun collect_field_strategies ::
  "('v field_data \<Rightarrow> string) \<Rightarrow> (string \<rightharpoonup> 'v field_data) \<Rightarrow> string list
     \<Rightarrow> (string \<times> 'v field_strategy) list \<Rightarrow> string list
     \<Rightarrow> py_error + ((string \<times> 'v field_strategy) list \<times> string list)" where
  "collect_field_strategies str_of canonical [] fs ids = Inr (fs, ids)"
| "collect_field_strategies str_of canonical (field_name # rest) fs ids =
     (case canonical field_name of
        None \<Rightarrow> collect_field_strategies str_of canonical rest fs ids
      | Some (Raw v) \<Rightarrow> collect_field_strategies str_of canonical rest fs ids
      | Some (Meta field_data) \<Rightarrow>
          (case canonical ''id'' of
             None \<Rightarrow> Inl (KeyError ''id'')
           | Some idv \<Rightarrow>
               collect_field_strategies str_of canonical rest
                 (AList.update field_name (field_strategy_entry field_data) fs)
                 (ids @ [''attr_'' @ str_of idv @ ''_'' @ field_name])))"

text \<open>
  \<open>sum(confidences) / len(confidences) if confidences else 1.0\<close>. Every value of
  \<open>field_strategies\<close> has the key \<open>confidence\<close>, so the comprehension keeps all of
  them. A confidence is the real number its float denotes. Python adds and divides in
  binary floating point, with rounding: \<open>py_sum\<close> stands for the built-in \<open>sum\<close> on a
  list of floats and \<open>py_div\<close> for the division of a float by the integer \<open>len\<close>;
  neither is the sum or the quotient of the reals.
\<close>

definition overall_confidence ::
  "(real list \<Rightarrow> real) \<Rightarrow> (real \<Rightarrow> nat \<Rightarrow> real) \<Rightarrow> (string \<times> 'v field_strategy) list \<Rightarrow> real" where
  "overall_confidence py_sum py_div fs =
     (let confidences = map (\<lambda>kv. fs_confidence (snd kv)) fs
      in if confidences \<noteq> [] then py_div (py_sum confidences) (length confidences) else 1)"

text \<open>
  \<open>create_reconciliation_decision\<close>. The clock is read three times, from reading
  number \<open>t\<close> on: for the cluster metadata, for \<open>timestamp\<close> and for \<open>created_at\<close>.
\<close>

definition create_reconciliation_decision ::
  "(real list \<Rightarrow> real) \<Rightarrow> (real \<Rightarrow> nat \<Rightarrow> real) \<Rightarrow> (nat \<Rightarrow> string) \<Rightarrow> nat
     \<Rightarrow> ('v field_data \<Rightarrow> string) \<Rightarrow> string list
     \<Rightarrow> observation list \<Rightarrow> (string \<rightharpoonup> 'v field_data) \<Rightarrow> nat
     \<Rightarrow> py_error + 'v reconciliation_decision" where
  "create_reconciliation_decision py_sum py_div now t str_of schema_keys observations canonical
       decision_counter =
     (let obs_ids = map obs_ident observations;
          cm = \<lparr> observation_count = length observations,
                 data_sources = set (map obs_data_source observations),
                 reconciliation_timestamp = now t \<rparr>
      in (case collect_field_strategies str_of canonical schema_keys [] [] of
            Inl err \<Rightarrow> Inl err
          | Inr (fs, ids) \<Rightarrow>
              Inr \<lparr> decision_id = ''recon_decision_'' @ fmt06d decision_counter,
                    decision_timestamp = now (t + 1),
                    observation_ids = obs_ids,
                    cluster_metadata = cm,
                    field_strategies = fs,
                    created_statement_ids = ids,
                    decision_confidence = overall_confidence py_sum py_div fs,
                    decision_method =
                      (if length observations = 1 then ''single_source'' else ''automated''),
                    decision_created_at = now (t + 2) \<rparr>))"

section \<open>Statement ids (scripts/migrate-to-schema)\<close>

text \<open>
  \<open>generate_statement_id\<close>: the clock reading, formatted by
  \<open>strftime("%Y%m%d%H%M%S%f")\<close>, is the \<open>t\<close>-th value of \<open>now\<close>; the function returns
  the id and the number of the next reading.
\<close>

definition generate_statement_id ::
  "(nat \<Rightarrow> string) \<Rightarrow> nat \<Rightarrow> string \<Rightarrow> string \<Rightarrow> string \<Rightarrow> string \<times> nat" where
  "generate_statement_id now t prefix subject_id predicate =
     (prefix @ ''_'' @ subject_id @ ''_'' @ predicate @ ''_'' @ now t, t + 1)"

section \<open>Example data\<close>

text \<open>
  A small registry, a clock and a fresh job, used to evaluate the functions above on
  concrete inputs. \<open>example_fmt2f\<close> is only applied to the similarity 0.92.
\<close>

definition example_entity :: "string \<Rightarrow> int \<Rightarrow> real \<Rightarrow> entity" where
  "example_entity name n amt =
     \<lparr> canonical_name = Some name, aliases = Some {}, transaction_count = Some n,
       total_amount_usd = Some amt, merged_from = None, last_merged = None,
       ent_lineage_id = None, status = None, superseded_by = None, superseded_at = None \<rparr>"

definition example_now :: "nat \<Rightarrow> string" where
  "example_now k = ''2025-10-14T10:00:00.'' @ fmt06d k"

definition example_fmt2f :: "real \<Rightarrow> string" where
  "example_fmt2f x = ''0.92''"

definition new_job :: merge_job where
  "new_job = \<lparr> entity_lineages = [], lineage_counter = 0, clock_reads = 0 \<rparr>"

definition example_entities :: "string \<rightharpoonup> entity" where
  "example_entities =
     [''A'' \<mapsto> example_entity ''Alpha'' 10 500,
      ''B'' \<mapsto> example_entity ''Beta'' 3 90,
      ''C'' \<mapsto> example_entity ''Gamma'' 1 5]"

text \<open>
  Two canonical records for the transaction \<open>tx1\<close>: one whose fields are raw values,
  one with two metadata objects (the second without any metadata key) and a raw field.
\<close>

definition example_str_of :: "string field_data \<Rightarrow> string" where
  "example_str_of fd = (case fd of Raw v \<Rightarrow> v | Meta m \<Rightarrow> ''{}'')"

definition example_observation :: observation where
  "example_observation =
     \<lparr> observation_id = None, obs_id = Some ''obs1'', data_source = None, observer = None \<rparr>"

definition raw_canonical :: "string \<rightharpoonup> string field_data" where
  "raw_canonical = [''id'' \<mapsto> Raw ''tx1'', ''amount'' \<mapsto> Raw ''-42'']"

definition meta_canonical :: "string \<rightharpoonup> string field_data" where
  "meta_canonical =
     [''id'' \<mapsto> Raw ''tx1'',
      ''amount'' \<mapsto> Meta \<lparr> fd_value = Some ''-42'', reconciliation_method = Some ''first_source'',
                             source_observation_id = Some ''obs1'', fd_confidence = Some (3 / 4),
                             alternatives = Some [] \<rparr>,
      ''description'' \<mapsto> Meta \<lparr> fd_value = Some ''Uber'', reconciliation_method = None,
                                  source_observation_id = None, fd_confidence = None,
                                  alternatives = None \<rparr>,
      ''currency'' \<mapsto> Raw ''USD'']"

text \<open>
  Python's \<open>sum\<close> and division on the confidences of \<open>meta_canonical\<close>: 0.75 and 1.0
  add up to 1.75 and halve to 0.875, all of them floats, so nothing is rounded there.
  The two functions are applied to no other input.
\<close>

definition example_sum :: "real list \<Rightarrow> real" where
  "example_sum cs = sum_list cs"

definition example_div :: "real \<Rightarrow> nat \<Rightarrow> real" where
  "example_div x n = x / real n"

text \<open>A clock whose readings fall into one microsecond.\<close>

definition stuck_clock :: "nat \<Rightarrow> string" where
  "stuck_clock k = ''20251014100000123456''"

section \<open>Termination of the resolver\<close>

lemma first_newer_old:
  "first_newer ledger c = Some r \<Longrightarrow> old_entity_id r = c \<and> r \<in> set ledger"
  by (auto simp: first_newer_def find_Some_iff)

lemma unvisited_decreases:
  assumes "first_newer ledger c = Some r" "c \<notin> V"
  shows "card (old_entity_id ` set ledger - insert c V) < card (old_entity_id ` set ledger - V)"
proof -
  from assms have "c \<in> old_entity_id ` set ledger - V"
    using first_newer_old by force
  then show ?thesis
    by (intro psubset_card_mono) auto
qed

lemma resolve_loop_total: "\<exists>r. resolve_loop ledger V c = Some r"
proof (induction "card (old_entity_id ` set ledger - V)" arbitrary: V c rule: less_induct)
  case less
  show ?case
  proof (cases "c \<in> V")
    case True
    then show ?thesis by (simp add: resolve_loop.simps)
  next
    case False
    show ?thesis
    proof (cases "first_newer ledger c")
      case None
      with False show ?thesis by (simp add: resolve_loop.simps)
    next
      case (Some r)
      from less [OF unvisited_decreases [OF Some False]]
      obtain x where "resolve_loop ledger (insert c V) (new_entity_id r) = Some x" by blast
      with False Some show ?thesis by (simp add: resolve_loop.simps [of ledger V c])
    qed
  qed
qed

section \<open>The shape of the resolver's result\<close>

text \<open>
  The visited ids, most recent first, form a chain of ledger steps without repetition.
  When the loop stops on a visited id, the part of the chain back to that id is a cycle;
  a walk that starts on a cycle comes back to its start.
\<close>

lemma steps_to_first_newer:
  "steps_to ledger a b \<Longrightarrow> \<exists>r. first_newer ledger b = Some r \<and> new_entity_id r = a"
  by (auto simp: steps_to_def)

lemma resolve_loop_visited: "c \<in> V \<Longrightarrow> resolve_loop ledger V c = Some c"
  by (simp add: resolve_loop.simps)

lemma resolve_loop_terminal:
  "first_newer ledger c = None \<Longrightarrow> resolve_loop ledger V c = Some c"
  by (simp add: resolve_loop.simps)

lemma resolve_loop_step:
  "c \<notin> V \<Longrightarrow> steps_to ledger a c \<Longrightarrow> resolve_loop ledger V c = resolve_loop ledger (insert c V) a"
  by (auto simp: resolve_loop.simps [of ledger V c] dest: steps_to_first_newer)

lemma cycle_returns:
  assumes "successively (steps_to ledger) (c # p1 @ p2 @ [c])" "distinct (c # p1 @ p2)"
  shows "resolve_loop ledger (insert c (set p2)) (last (c # p1)) = Some c"
  using assms
proof (induction p1 arbitrary: p2 rule: rev_induct)
  case Nil
  then show ?case by (simp add: resolve_loop_visited)
next
  case (snoc x q)
  from snoc.prems(1) have "successively (steps_to ledger) ((c # q) @ (x # p2 @ [c]))" by simp
  then have st: "steps_to ledger (last (c # q)) x"
    unfolding successively_append_iff by simp
  from snoc.prems(2) have nv: "x \<notin> insert c (set p2)" by auto
  have "resolve_loop ledger (insert c (set (x # p2))) (last (c # q)) = Some c"
    using snoc.prems by (intro snoc.IH) auto
  then have "resolve_loop ledger (insert x (insert c (set p2))) (last (c # q)) = Some c"
    by (simp add: insert_commute)
  with resolve_loop_step [OF nv st] show ?case by simp
qed

lemma cycle_fixed:
  assumes "successively (steps_to ledger) (c # pre @ [c])" "distinct (c # pre)"
  shows "resolve_loop ledger {} c = Some c"
proof -
  from assms(1) have "successively (steps_to ledger) ((c # pre) @ [c])" by simp
  then have st: "steps_to ledger (last (c # pre)) c"
    unfolding successively_append_iff by simp
  have "resolve_loop ledger (insert c (set [])) (last (c # pre)) = Some c"
    using assms by (intro cycle_returns) auto
  with resolve_loop_step [of c "{}" ledger, OF _ st] show ?thesis by simp
qed

lemma resolve_loop_result:
  assumes "successively (steps_to ledger) (c # vs)" "distinct vs"
    "resolve_loop ledger (set vs) c = Some r"
  shows "first_newer ledger r = None \<or>
         (\<exists>pre. successively (steps_to ledger) (r # pre @ [r]) \<and> distinct (r # pre))"
  using assms
proof (induction "card (old_entity_id ` set ledger - set vs)" arbitrary: vs c rule: less_induct)
  case less
  show ?case
  proof (cases "c \<in> set vs")
    case True
    with less.prems(3) have rc: "r = c" by (simp add: resolve_loop_visited)
    from True obtain pre post where vs: "vs = pre @ c # post" by (auto dest: split_list)
    from less.prems(1) have "successively (steps_to ledger) ((c # pre @ [c]) @ post)"
      by (simp add: vs)
    then have "successively (steps_to ledger) (c # pre @ [c])"
      unfolding successively_append_iff by simp
    moreover from less.prems(2) have "distinct (c # pre)" by (auto simp: vs)
    ultimately show ?thesis using rc by blast
  next
    case False
    show ?thesis
    proof (cases "first_newer ledger c")
      case None
      with less.prems(3) show ?thesis by (simp add: resolve_loop_terminal)
    next
      case (Some rec)
      then have st: "steps_to ledger (new_entity_id rec) c" by (simp add: steps_to_def)
      from less.prems(3) have res: "resolve_loop ledger (set (c # vs)) (new_entity_id rec) = Some r"
        using resolve_loop_step [OF False st] by simp
      have dec: "card (old_entity_id ` set ledger - set (c # vs))
                   < card (old_entity_id ` set ledger - set vs)"
        using unvisited_decreases [OF Some False] by simp
      have ch: "successively (steps_to ledger) (new_entity_id rec # c # vs)"
        using st less.prems(1) by simp
      from False less.prems(2) have "distinct (c # vs)" by simp
      from less.hyps [OF dec ch this res] show ?thesis .
    qed
  qed
qed

lemma resolve_fixed:
  assumes "resolve_current_entity_id ledger e = Some r"
  shows "resolve_current_entity_id ledger r = Some r"
proof -
  from assms have "resolve_loop ledger (set []) e = Some r"
    by (simp add: resolve_current_entity_id_def)
  from resolve_loop_result [OF _ _ this]
  have "first_newer ledger r = None \<or>
         (\<exists>pre. successively (steps_to ledger) (r # pre @ [r]) \<and> distinct (r # pre))"
    by simp
  then show ?thesis
    unfolding resolve_current_entity_id_def
    by (auto simp: resolve_loop_terminal dest: cycle_fixed)
qed

lemma resolve_loop_reaches:
  "resolve_loop ledger V c = Some r \<Longrightarrow> (\<lambda>a b. steps_to ledger b a)\<^sup>*\<^sup>* c r"
proof (induction "card (old_entity_id ` set ledger - V)" arbitrary: V c rule: less_induct)
  case less
  show ?case
  proof (cases "c \<in> V")
    case True
    with less.prems show ?thesis by (simp add: resolve_loop_visited)
  next
    case False
    show ?thesis
    proof (cases "first_newer ledger c")
      case None
      with less.prems show ?thesis by (simp add: resolve_loop_terminal)
    next
      case (Some rec)
      then have st: "steps_to ledger (new_entity_id rec) c" by (simp add: steps_to_def)
      from less.prems have "resolve_loop ledger (insert c V) (new_entity_id rec) = Some r"
        using resolve_loop_step [OF False st] by simp
      from less.hyps [OF unvisited_decreases [OF Some False] this]
      have "(\<lambda>a b. steps_to ledger b a)\<^sup>*\<^sup>* (new_entity_id rec) r" .
      with st show ?thesis by (simp add: converse_rtranclp_into_rtranclp)
    qed
  qed
qed

text \<open>
  Claim C3. For every lineage ledger and every entity id, the resolver returns an id,
  and resolving that id again returns it unchanged: resolving twice equals resolving
  once. This holds for every ledger, also one with several records for one old id or
  with a cycle.
\<close>

theorem resolve_current_entity_id_idempotent:
  "\<exists>r. resolve_current_entity_id ledger e = Some r
       \<and> resolve_current_entity_id ledger r = Some r"
proof -
  obtain r where r: "resolve_current_entity_id ledger e = Some r"
    using resolve_loop_total unfolding resolve_current_entity_id_def by blast
  with resolve_fixed [OF r] show ?thesis by simp
qed

text \<open>
  Claim C4. The resolver returns on every ledger and every id, a cyclic ledger included.
  The id it returns is the last one reached: it is reached from the given id by a chain
  of ledger steps (each step follows the first record that leaves the current id), and
  it is either an id that no record of the ledger leaves, or an id that the walk had
  already visited, which then lies on a cycle of ledger steps through pairwise distinct
  ids.
\<close>

theorem resolve_current_entity_id_terminates:
  "\<exists>r. resolve_current_entity_id ledger e = Some r
       \<and> (\<lambda>a b. steps_to ledger b a)\<^sup>*\<^sup>* e r
       \<and> (first_newer ledger r = None
          \<or> (\<exists>pre. successively (steps_to ledger) (r # pre @ [r]) \<and> distinct (r # pre)))"
proof -
  obtain r where r: "resolve_loop ledger (set []) e = Some r"
    using resolve_loop_total by blast
  from resolve_loop_result [OF _ _ r]
  have "first_newer ledger r = None
          \<or> (\<exists>pre. successively (steps_to ledger) (r # pre @ [r]) \<and> distinct (r # pre))"
    by simp
  moreover from r have "(\<lambda>a b. steps_to ledger b a)\<^sup>*\<^sup>* e r"
    by (rule resolve_loop_reaches)
  ultimately show ?thesis using r by (simp add: resolve_current_entity_id_def)
qed

section \<open>The merge pass\<close>

lemma merge_pair_absent1:
  "merged_entities id1 = None \<Longrightarrow>
     merge_pair now fmt2f job merged_entities (id1, id2, sim) = Inl (KeyError id1)"
  by (simp add: merge_pair_def)

lemma merge_pair_absent2:
  "merged_entities id1 = Some e1 \<Longrightarrow> merged_entities id2 = None \<Longrightarrow>
     merge_pair now fmt2f job merged_entities (id1, id2, sim) = Inl (KeyError id2)"
  by (simp add: merge_pair_def)

lemma merge_pair_present:
  "merged_entities id1 = Some e1 \<Longrightarrow> merged_entities id2 = Some e2 \<Longrightarrow>
     \<exists>res. merge_pair now fmt2f job merged_entities (id1, id2, sim) = Inr res"
  by (simp add: merge_pair_def Let_def)

lemma merge_pair_dom:
  assumes "merge_pair now fmt2f job merged_entities pair = Inr (job', merged', entry)"
  shows "dom merged' = dom merged_entities"
proof -
  obtain id1 id2 sim where pair: "pair = (id1, id2, sim)" by (cases pair) auto
  from assms obtain e1 e2 where e: "merged_entities id1 = Some e1" "merged_entities id2 = Some e2"
    unfolding pair merge_pair_def by (auto split: option.splits)
  then have "id1 \<in> dom merged_entities" "id2 \<in> dom merged_entities" by auto
  with assms e show ?thesis
    unfolding pair merge_pair_def Let_def by (auto split: if_splits)
qed

lemma merge_loop_dom:
  "merge_loop now fmt2f ids job merged_entities lg pairs = Inr (job', merged', lg')
     \<Longrightarrow> dom merged' = dom merged_entities"
proof (induction pairs arbitrary: job merged_entities lg)
  case Nil
  then show ?case by simp
next
  case (Cons pair rest)
  show ?case
  proof (cases "fst pair \<in> ids \<or> fst (snd pair) \<in> ids")
    case True
    with Cons show ?thesis by simp
  next
    case False
    with Cons.prems obtain j m en where
      step: "merge_pair now fmt2f job merged_entities pair = Inr (j, m, en)" and
      rest: "merge_loop now fmt2f ids j m (lg @ [en]) rest = Inr (job', merged', lg')"
      by (auto split: sum.splits)
    from Cons.IH [OF rest] merge_pair_dom [OF step] show ?thesis by simp
  qed
qed


lemmas example_defs =
  example_entities_def example_entity_def new_job_def get_transaction_count_def

lemma merge_loop_reaches:
  "\<forall>p \<in> set pre. fst p \<in> dom merged_entities \<and> fst (snd p) \<in> dom merged_entities
     \<Longrightarrow> \<exists>job' merged' lg'. dom merged' = dom merged_entities \<and>
           merge_loop now fmt2f {} job merged_entities lg (pre @ rest)
             = merge_loop now fmt2f {} job' merged' lg' rest"
proof (induction pre arbitrary: job merged_entities lg)
  case Nil
  then show ?case by auto
next
  case (Cons pair pre)
  obtain id1 id2 sim where pair: "pair = (id1, id2, sim)" by (cases pair) auto
  from Cons.prems obtain e1 e2 where "merged_entities id1 = Some e1" "merged_entities id2 = Some e2"
    by (auto simp: pair)
  from merge_pair_present [OF this]
  obtain j m en where step: "merge_pair now fmt2f job merged_entities pair = Inr (j, m, en)"
    unfolding pair by (metis prod_cases3)
  have dm: "dom m = dom merged_entities" by (rule merge_pair_dom [OF step])
  with Cons.prems have "\<forall>p \<in> set pre. fst p \<in> dom m \<and> fst (snd p) \<in> dom m" by simp
  from Cons.IH [OF this, of j "lg @ [en]"] dm step show ?case by auto
qed

text \<open>
  Claim C2. An applied merge of two distinct entities, both present in the collection,
  returns normally; its log entry names the two ids as primary and secondary; afterwards
  the primary's \<open>transaction_count\<close> is the primary's count before the merge plus the
  secondary's count before the merge, and the secondary is still in the collection, with
  \<open>status\<close> equal to \<open>superseded\<close> and \<open>superseded_by\<close> equal to the primary's id.
\<close>

theorem merge_pair_no_data_loss:
  assumes "id1 \<noteq> id2"
    and "merged_entities id1 = Some entity1"
    and "merged_entities id2 = Some entity2"
  shows "\<exists>job' merged' entry p s p' s'.
           merge_pair now fmt2f job merged_entities (id1, id2, sim) = Inr (job', merged', entry)
         \<and> {primary entry, secondary entry} = {id1, id2}
         \<and> merged_entities (primary entry) = Some p
         \<and> merged_entities (secondary entry) = Some s
         \<and> merged' (primary entry) = Some p'
         \<and> merged' (secondary entry) = Some s'
         \<and> transaction_count p' = Some (get_transaction_count p + get_transaction_count s)
         \<and> status s' = Some ''superseded''
         \<and> superseded_by s' = Some (primary entry)"
proof (cases "get_transaction_count entity1 \<ge> get_transaction_count entity2")
  case True
  with assms show ?thesis
    by (simp add: merge_pair_def Let_def)
next
  case False
  with assms show ?thesis
    by (simp add: merge_pair_def Let_def insert_commute)
qed

text \<open>The registry entries \<open>A\<close> (ten transactions) and \<open>B\<close> (three) are such a pair.\<close>

theorem merge_pair_no_data_loss_witness:
  "''A'' \<noteq> ''B'' \<and>
   (\<exists>job' merged' entry p s p' s'.
      merge_pair example_now example_fmt2f new_job example_entities (''A'', ''B'', 0.92)
        = Inr (job', merged', entry)
    \<and> {primary entry, secondary entry} = {''A'', ''B''}
    \<and> example_entities (primary entry) = Some p
    \<and> example_entities (secondary entry) = Some s
    \<and> merged' (primary entry) = Some p'
    \<and> merged' (secondary entry) = Some s'
    \<and> transaction_count p' = Some (get_transaction_count p + get_transaction_count s)
    \<and> status s' = Some ''superseded''
    \<and> superseded_by s' = Some (primary entry))"
proof -
  have a: "example_entities ''A'' = Some (example_entity ''Alpha'' 10 500)"
    by (simp add: example_entities_def)
  have b: "example_entities ''B'' = Some (example_entity ''Beta'' 3 90)"
    by (simp add: example_entities_def)
  have ne: "''A'' \<noteq> ''B''" by simp
  from merge_pair_no_data_loss [OF ne a b] ne show ?thesis by blast
qed

text \<open>
  Claim C10. Whenever \<open>run_merge_with_lineage\<close> returns, the dictionary it leaves has
  exactly the keys of the dictionary it read, the report's \<open>entities_after\<close> equals its
  \<open>entities_before\<close>, and \<open>entities_merged\<close> is 0, whatever merges were applied.
\<close>

theorem merge_keeps_every_key:
  assumes "run_merge_with_lineage now fmt2f find_duplicates job entities
             = Inr (job', merged_entities, report)"
  shows "dom merged_entities = dom entities
       \<and> entities_after report = entities_before report
       \<and> entities_merged report = 0"
proof (cases "find_duplicates entities = []")
  case True
  with assms show ?thesis by (auto simp: run_merge_with_lineage_def)
next
  case False
  with assms obtain j lg where
    m: "merge_duplicates_with_lineage now fmt2f job entities (find_duplicates entities)
          = Inr (j, merged_entities, lg)"
    and r: "report = \<lparr> report_timestamp = Some (now (clock_reads j + 2)),
                       duplicates_found = length (find_duplicates entities),
                       entities_before = Some (dict_len entities),
                       entities_after = Some (dict_len merged_entities),
                       entities_merged = int (dict_len entities) - int (dict_len merged_entities),
                       lineage_records = None,
                       lineage_records_created = Some (length (entity_lineages j)),
                       report_merge_log = Some lg \<rparr>"
    by (auto simp: run_merge_with_lineage_def Let_def split: sum.splits)
  from m have "dom merged_entities = dom entities"
    unfolding merge_duplicates_with_lineage_def by (rule merge_loop_dom)
  then show ?thesis by (simp add: r dict_len_def)
qed

text \<open>A run that applies one merge (its merge log has one entry) and reports 0 merged.\<close>

theorem merge_keeps_every_key_witness:
  "\<exists>job' merged_entities report.
      run_merge_with_lineage example_now example_fmt2f (\<lambda>es. [(''A'', ''B'', 0.92)])
        new_job example_entities = Inr (job', merged_entities, report)
    \<and> map_option length (report_merge_log report) = Some 1
    \<and> dom merged_entities = dom example_entities
    \<and> entities_after report = entities_before report
    \<and> entities_merged report = 0"
proof -
  obtain job' merged_entities report where
    run: "run_merge_with_lineage example_now example_fmt2f (\<lambda>es. [(''A'', ''B'', 0.92)])
            new_job example_entities = Inr (job', merged_entities, report)"
    and lg: "map_option length (report_merge_log report) = Some 1"
    by (simp add: run_merge_with_lineage_def merge_duplicates_with_lineage_def merge_pair_def
        Let_def example_defs)
  from merge_keeps_every_key [OF run] run lg show ?thesis by blast
qed


text \<open>
  Claim C5, as amended. A pair that names an id absent from the collection is not
  skipped: when every earlier pair names present ids only and shares no id with it, the
  run stops at this pair with \<open>KeyError\<close> on the absent id (on \<open>id1\<close> when both are
  absent), and the remaining pairs are not processed.
\<close>

theorem merge_absent_id_raises:
  "(\<forall>p \<in> set pre. fst p \<in> dom entities \<and> fst (snd p) \<in> dom entities
                        \<and> id1 \<notin> {fst p, fst (snd p)} \<and> id2 \<notin> {fst p, fst (snd p)})
        \<and> (id1 \<notin> dom entities \<or> id2 \<notin> dom entities)
      \<longrightarrow> merge_duplicates_with_lineage now fmt2f job entities (pre @ (id1, id2, sim) # rest)
            = Inl (KeyError (if id1 \<notin> dom entities then id1 else id2))"
proof (intro impI)
  assume h: "(\<forall>p \<in> set pre. fst p \<in> dom entities \<and> fst (snd p) \<in> dom entities
                        \<and> id1 \<notin> {fst p, fst (snd p)} \<and> id2 \<notin> {fst p, fst (snd p)})
        \<and> (id1 \<notin> dom entities \<or> id2 \<notin> dom entities)"
  then have "\<forall>p \<in> set pre. fst p \<in> dom entities \<and> fst (snd p) \<in> dom entities" by blast
  from merge_loop_reaches [OF this, of now fmt2f job "[]" "(id1, id2, sim) # rest"]
  obtain job' merged' lg' where
    dm: "dom merged' = dom entities" and
    eq: "merge_loop now fmt2f {} job entities [] (pre @ (id1, id2, sim) # rest)
           = merge_loop now fmt2f {} job' merged' lg' ((id1, id2, sim) # rest)"
    by blast
  have "merge_pair now fmt2f job' merged' (id1, id2, sim)
          = Inl (KeyError (if id1 \<notin> dom entities then id1 else id2))"
  proof (cases "id1 \<in> dom entities")
    case True
    with h have "id2 \<notin> dom entities" by blast
    with True dm have "id1 \<in> dom merged'" "id2 \<notin> dom merged'" by simp_all
    then obtain e1 where "merged' id1 = Some e1" "merged' id2 = None" by blast
    then show ?thesis using True by (simp add: merge_pair_absent2)
  next
    case False
    with dm have "id1 \<notin> dom merged'" by simp
    then have "merged' id1 = None" by blast
    then show ?thesis using False by (simp add: merge_pair_absent1)
  qed
  then show "merge_duplicates_with_lineage now fmt2f job entities (pre @ (id1, id2, sim) # rest)
            = Inl (KeyError (if id1 \<notin> dom entities then id1 else id2))"
    by (simp add: merge_duplicates_with_lineage_def eq)
qed

lemma example_dom: "dom example_entities = {''A'', ''B'', ''C''}"
  by (auto simp: example_entities_def)

text \<open>
  On the example registry the list \<open>(A, B), (C, ghost)\<close> merges its first pair and
  raises on \<open>ghost\<close>.
\<close>

theorem merge_absent_id_raises_witness:
  "merge_duplicates_with_lineage example_now example_fmt2f new_job example_entities
     ([(''A'', ''B'', 0.92)] @ (''C'', ''ghost'', 0.92) # [])
     = Inl (KeyError ''ghost'')"
  using merge_absent_id_raises [where entities = example_entities and now = example_now
      and fmt2f = example_fmt2f and job = new_job and pre = "[(''A'', ''B'', 0.92)]"
      and ?id1.0 = "''C''" and ?id2.0 = "''ghost''" and sim = "0.92" and rest = "[]"]
  by (simp add: example_dom)

text \<open>
  Claim C5 as stated fails: the pair \<open>(A, ghost)\<close> is not skipped, the run raises and
  the pair \<open>(B, C)\<close> after it is never processed.
\<close>

theorem merge_absent_id_counterexample:
  "merge_duplicates_with_lineage example_now example_fmt2f new_job example_entities
     [(''A'', ''ghost'', 0.92), (''B'', ''C'', 0.92)] = Inl (KeyError ''ghost'')"
  by (simp add: merge_duplicates_with_lineage_def merge_pair_def example_entities_def)

text \<open>
  Claim C1 on the code. The id \<open>A\<close> is consumed by the pair \<open>(A, B)\<close>; the later pair
  \<open>(A, C)\<close> of the same run is applied all the same, so \<open>A\<close> is the primary of two
  applied merges: \<open>merged_ids\<close> is tested but never extended.
\<close>

theorem merge_reuses_consumed_id:
  "\<exists>job' merged lg.
      merge_duplicates_with_lineage example_now example_fmt2f new_job example_entities
        [(''A'', ''B'', 0.92), (''A'', ''C'', 0.92)] = Inr (job', merged, lg)
    \<and> map primary lg = [''A'', ''A''] \<and> map secondary lg = [''B'', ''C'']"
  by (simp add: merge_duplicates_with_lineage_def merge_pair_def Let_def example_defs)

text \<open>
  Claim C9 on the code. For the pair \<open>(C, A)\<close> the secondary is the first element
  \<open>C\<close>, with one transaction, but the lineage record stores
  \<open>transaction_count_transferred = tx_count2\<close>, the count of the second element \<open>A\<close>,
  which is the primary: 10 instead of 1.
\<close>

theorem lineage_metadata_wrong_count:
  "\<exists>job' merged lg.
      merge_duplicates_with_lineage example_now example_fmt2f new_job example_entities
        [(''C'', ''A'', 0.92)] = Inr (job', merged, lg)
    \<and> map secondary lg = [''C'']
    \<and> map_option get_transaction_count (example_entities ''C'') = Some 1
    \<and> map (\<lambda>l. transaction_count_transferred (metadata l)) (entity_lineages job') = [10]"
  by (simp add: merge_duplicates_with_lineage_def merge_pair_def Let_def example_defs)

section \<open>The decision builder\<close>

lemma collect_skip_absent:
  "canonical key = None \<Longrightarrow>
     collect_field_strategies str_of canonical (key # rest) fs ids
       = collect_field_strategies str_of canonical rest fs ids"
  by simp

lemma collect_skip_raw:
  "canonical key = Some (Raw v) \<Longrightarrow>
     collect_field_strategies str_of canonical (key # rest) fs ids
       = collect_field_strategies str_of canonical rest fs ids"
  by simp

lemma collect_meta:
  "canonical key = Some (Meta m) \<Longrightarrow> canonical ''id'' = Some idv \<Longrightarrow>
     collect_field_strategies str_of canonical (key # rest) fs ids
       = collect_field_strategies str_of canonical rest
           (AList.update key (field_strategy_entry m) fs)
           (ids @ [''attr_'' @ str_of idv @ ''_'' @ key])"
  by simp

lemma collect_meta_no_id:
  "canonical key = Some (Meta m) \<Longrightarrow> canonical ''id'' = None \<Longrightarrow>
     collect_field_strategies str_of canonical (key # rest) fs ids = Inl (KeyError ''id'')"
  by simp

lemma field_cases:
  obtains (absent) "canonical key = None"
        | (raw) v where "canonical key = Some (Raw v)"
        | (meta) m where "canonical key = Some (Meta m)"
proof (cases "canonical key")
  case None
  then show ?thesis by (rule absent)
next
  case (Some fd)
  then show ?thesis by (cases fd) (auto intro: raw meta)
qed

lemma collect_skip:
  assumes "\<forall>m. canonical key \<noteq> Some (Meta m)"
  shows "collect_field_strategies str_of canonical (key # rest) fs ids
           = collect_field_strategies str_of canonical rest fs ids"
proof (cases rule: field_cases [of canonical key])
  case absent
  then show ?thesis by simp
next
  case (raw v)
  then show ?thesis by simp
next
  case (meta m)
  with assms show ?thesis by blast
qed

lemma collect_total:
  assumes "canonical ''id'' = Some idv"
  shows "\<exists>res. collect_field_strategies str_of canonical keys fs0 ids0 = Inr res"
proof (induction keys arbitrary: fs0 ids0)
  case Nil
  show ?case by simp
next
  case (Cons key rest)
  show ?case
  proof (cases "\<exists>m. canonical key = Some (Meta m)")
    case False
    then have "\<forall>m. canonical key \<noteq> Some (Meta m)" by blast
    from collect_skip [where canonical = canonical and key = key, OF this] Cons [of fs0 ids0] show ?thesis by simp
  next
    case True
    then obtain m where "canonical key = Some (Meta m)" by blast
    from collect_meta [where canonical = canonical and key = key, OF this assms]
      Cons [of "AList.update key (field_strategy_entry m) fs0"
               "ids0 @ [''attr_'' @ str_of idv @ ''_'' @ key]"]
    show ?thesis by simp
  qed
qed

lemma collect_untouched:
  assumes "collect_field_strategies str_of canonical keys fs0 ids0 = Inr (fs, ids)"
    and "k \<notin> set keys \<or> (\<forall>m. canonical k \<noteq> Some (Meta m))"
  shows "map_of fs k = map_of fs0 k"
  using assms
proof (induction keys arbitrary: fs0 ids0)
  case Nil
  then show ?case by simp
next
  case (Cons key rest)
  from Cons.prems(2) have h: "k \<notin> set rest \<or> (\<forall>m. canonical k \<noteq> Some (Meta m))" by auto
  show ?case
  proof (cases "\<exists>m. canonical key = Some (Meta m)")
    case False
    then have "\<forall>m. canonical key \<noteq> Some (Meta m)" by blast
    from collect_skip [where canonical = canonical and key = key, OF this] Cons.prems(1)
    have "collect_field_strategies str_of canonical rest fs0 ids0 = Inr (fs, ids)" by simp
    from Cons.IH [OF this h] show ?thesis .
  next
    case True
    then obtain m where meta: "canonical key = Some (Meta m)" by blast
    with Cons.prems(2) have ne: "k \<noteq> key" by auto
    from Cons.prems(1) meta obtain idv where
      "collect_field_strategies str_of canonical rest
         (AList.update key (field_strategy_entry m) fs0)
         (ids0 @ [''attr_'' @ str_of idv @ ''_'' @ key]) = Inr (fs, ids)"
      by (cases "canonical ''id''") simp_all
    from Cons.IH [OF this h] ne show ?thesis by (simp add: AList.update_conv')
  qed
qed

lemma collect_recorded:
  assumes "collect_field_strategies str_of canonical keys fs0 ids0 = Inr (fs, ids)"
    and "k \<in> set keys" and "canonical k = Some (Meta m)"
  shows "map_of fs k = Some (field_strategy_entry m)"
  using assms
proof (induction keys arbitrary: fs0 ids0)
  case Nil
  then show ?case by simp
next
  case (Cons key rest)
  show ?case
  proof (cases "\<exists>m. canonical key = Some (Meta m)")
    case False
    then have nm: "\<forall>m. canonical key \<noteq> Some (Meta m)" by blast
    from collect_skip [where canonical = canonical and key = key, OF this] Cons.prems(1)
    have r: "collect_field_strategies str_of canonical rest fs0 ids0 = Inr (fs, ids)" by simp
    from nm Cons.prems(3) have "k \<noteq> key" by blast
    with Cons.prems(2) have "k \<in> set rest" by simp
    from Cons.IH [OF r this Cons.prems(3)] show ?thesis .
  next
    case True
    then obtain m' where meta: "canonical key = Some (Meta m')" by blast
    from Cons.prems(1) meta obtain idv where
      r: "collect_field_strategies str_of canonical rest
         (AList.update key (field_strategy_entry m') fs0)
         (ids0 @ [''attr_'' @ str_of idv @ ''_'' @ key]) = Inr (fs, ids)"
      by (cases "canonical ''id''") simp_all
    show ?thesis
    proof (cases "k \<in> set rest")
      case True
      from Cons.IH [OF r True Cons.prems(3)] show ?thesis .
    next
      case False
      with Cons.prems(2) have kk: "k = key" by simp
      from False have "k \<notin> set rest \<or> (\<forall>m. canonical k \<noteq> Some (Meta m))" by simp
      from collect_untouched [OF r this] kk meta Cons.prems(3)
      show ?thesis by (simp add: AList.update_conv')
    qed
  qed
qed

lemma collect_statement_ids:
  assumes "collect_field_strategies str_of canonical keys fs0 ids0 = Inr (fs, ids)"
    and "canonical ''id'' = Some idv"
  shows "set ids = set ids0 \<union>
           (\<lambda>k. ''attr_'' @ str_of idv @ ''_'' @ k) ` {k \<in> set keys. \<exists>m. canonical k = Some (Meta m)}"
  using assms(1)
proof (induction keys arbitrary: fs0 ids0)
  case Nil
  then show ?case by simp
next
  case (Cons key rest)
  show ?case
  proof (cases "\<exists>m. canonical key = Some (Meta m)")
    case False
    then have nm: "\<forall>m. canonical key \<noteq> Some (Meta m)" by blast
    from collect_skip [where canonical = canonical and key = key, OF this] Cons.prems(1)
    have r: "collect_field_strategies str_of canonical rest fs0 ids0 = Inr (fs, ids)" by simp
    have "{k \<in> set (key # rest). \<exists>m. canonical k = Some (Meta m)}
            = {k \<in> set rest. \<exists>m. canonical k = Some (Meta m)}"
      using nm by auto
    with Cons.IH [OF r] show ?thesis by simp
  next
    case True
    then obtain m where meta: "canonical key = Some (Meta m)" by blast
    from Cons.prems(1) collect_meta [where canonical = canonical and key = key, OF meta assms(2)] have
      r: "collect_field_strategies str_of canonical rest
         (AList.update key (field_strategy_entry m) fs0)
         (ids0 @ [''attr_'' @ str_of idv @ ''_'' @ key]) = Inr (fs, ids)"
      by simp
    have "{k \<in> set (key # rest). \<exists>m. canonical k = Some (Meta m)}
            = insert key {k \<in> set rest. \<exists>m. canonical k = Some (Meta m)}"
      using meta by auto
    with Cons.IH [OF r] show ?thesis by simp
  qed
qed

lemma fmt06d_0: "fmt06d 0 = ''000000''"
  by (simp add: fmt06d_def digit_char_def eval_nat_numeral)

text \<open>
  Claim C7, as amended. For a canonical record that has an id, the builder returns a
  decision; every schema key whose value on the record is a metadata object has an entry
  in \<open>field_strategies\<close>, with the strategy and the chosen observation defaulting to
  \<open>unknown\<close>, the confidence to 1 and the alternatives to the empty list, and its
  statement id is in \<open>created_statement_ids\<close>. A schema key whose value is a raw value
  has no entry and no statement id.
\<close>

theorem decision_records_metadata_fields:
  assumes "canonical ''id'' = Some idv"
  shows "\<exists>d. create_reconciliation_decision py_sum py_div now t str_of schema_keys observations canonical n = Inr d
      \<and> (\<forall>k \<in> set schema_keys.
            (\<forall>m. canonical k = Some (Meta m) \<longrightarrow>
                map_of (field_strategies d) k =
                  Some \<lparr> strategy = (case reconciliation_method m of
                                       None \<Rightarrow> ''unknown'' | Some x \<Rightarrow> x),
                         chosen_obs = (case source_observation_id m of
                                         None \<Rightarrow> ''unknown'' | Some ob \<Rightarrow> ob),
                         fs_confidence = (case fd_confidence m of None \<Rightarrow> 1 | Some c \<Rightarrow> c),
                         fs_alternatives = (case alternatives m of None \<Rightarrow> [] | Some a \<Rightarrow> a) \<rparr>
              \<and> ''attr_'' @ str_of idv @ ''_'' @ k \<in> set (created_statement_ids d))
          \<and> (\<forall>v. canonical k = Some (Raw v) \<longrightarrow>
                map_of (field_strategies d) k = None
              \<and> ''attr_'' @ str_of idv @ ''_'' @ k \<notin> set (created_statement_ids d)))"
proof -
  obtain fs ids where
    c: "collect_field_strategies str_of canonical schema_keys [] [] = Inr (fs, ids)"
    using collect_total [where canonical = canonical and idv = idv and str_of = str_of
        and keys = schema_keys and ?fs0.0 = "[]" and ?ids0.0 = "[]", OF assms] by force
  define d where "d = \<lparr> decision_id = ''recon_decision_'' @ fmt06d n,
               decision_timestamp = now (t + 1),
               observation_ids = map obs_ident observations,
               cluster_metadata = \<lparr> observation_count = length observations,
                                    data_sources = set (map obs_data_source observations),
                                    reconciliation_timestamp = now t \<rparr>,
               field_strategies = fs,
               created_statement_ids = ids,
               decision_confidence = overall_confidence py_sum py_div fs,
               decision_method =
                 (if length observations = 1 then ''single_source'' else ''automated''),
               decision_created_at = now (t + 2) \<rparr>"
  have run: "create_reconciliation_decision py_sum py_div now t str_of schema_keys observations canonical n
               = Inr d"
    by (simp add: create_reconciliation_decision_def c d_def)
  have dfs: "field_strategies d = fs" and dids: "created_statement_ids d = ids"
    by (simp_all add: d_def)
  have ids: "set ids = (\<lambda>k. ''attr_'' @ str_of idv @ ''_'' @ k) `
                {k \<in> set schema_keys. \<exists>m. canonical k = Some (Meta m)}"
    using collect_statement_ids [OF c assms] by simp
  have "\<forall>k \<in> set schema_keys.
            (\<forall>m. canonical k = Some (Meta m) \<longrightarrow>
                map_of fs k = Some (field_strategy_entry m)
              \<and> ''attr_'' @ str_of idv @ ''_'' @ k \<in> set ids)
          \<and> (\<forall>v. canonical k = Some (Raw v) \<longrightarrow>
                map_of fs k = None \<and> ''attr_'' @ str_of idv @ ''_'' @ k \<notin> set ids)"
  proof (intro ballI conjI allI impI)
    fix k m assume "k \<in> set schema_keys" "canonical k = Some (Meta m)"
    then show "map_of fs k = Some (field_strategy_entry m)" by (rule collect_recorded [OF c])
  next
    fix k m assume "k \<in> set schema_keys" "canonical k = Some (Meta m)"
    then show "''attr_'' @ str_of idv @ ''_'' @ k \<in> set ids" unfolding ids by blast
  next
    fix k v assume "canonical k = Some (Raw v)"
    then have "k \<notin> set schema_keys \<or> (\<forall>m. canonical k \<noteq> Some (Meta m))" by simp
    from collect_untouched [OF c this] show "map_of fs k = None" by simp
  next
    fix k v assume r: "canonical k = Some (Raw v)"
    show "''attr_'' @ str_of idv @ ''_'' @ k \<notin> set ids"
    proof
      assume "''attr_'' @ str_of idv @ ''_'' @ k \<in> set ids"
      then obtain k' where "''attr_'' @ str_of idv @ ''_'' @ k = ''attr_'' @ str_of idv @ ''_'' @ k'"
        and "\<exists>m. canonical k' = Some (Meta m)"
        unfolding ids by blast
      with r show False by simp
    qed
  qed
  then have "\<forall>k \<in> set schema_keys.
            (\<forall>m. canonical k = Some (Meta m) \<longrightarrow>
                map_of (field_strategies d) k = Some (field_strategy_entry m)
              \<and> ''attr_'' @ str_of idv @ ''_'' @ k \<in> set (created_statement_ids d))
          \<and> (\<forall>v. canonical k = Some (Raw v) \<longrightarrow>
                map_of (field_strategies d) k = None
              \<and> ''attr_'' @ str_of idv @ ''_'' @ k \<notin> set (created_statement_ids d))"
    unfolding dfs dids .
  with run show ?thesis unfolding field_strategy_entry_def by blast
qed

text \<open>
  The record \<open>meta_canonical\<close>: \<open>description\<close> is a metadata object without any
  metadata key, \<open>currency\<close> is a raw value.
\<close>

theorem decision_records_metadata_fields_witness:
  "\<exists>d. create_reconciliation_decision example_sum example_div example_now 0 example_str_of
          [''amount'', ''description'', ''currency''] [example_observation] meta_canonical 0 = Inr d
      \<and> map_of (field_strategies d) ''description'' =
          Some \<lparr> strategy = ''unknown'', chosen_obs = ''unknown'', fs_confidence = 1,
                 fs_alternatives = [] \<rparr>
      \<and> ''attr_tx1_description'' \<in> set (created_statement_ids d)
      \<and> map_of (field_strategies d) ''currency'' = None
      \<and> ''attr_tx1_currency'' \<notin> set (created_statement_ids d)"
proof -
  have i: "meta_canonical ''id'' = Some (Raw ''tx1'')" by (simp add: meta_canonical_def)
  have de: "meta_canonical ''description'' =
          Some (Meta \<lparr> fd_value = Some ''Uber'', reconciliation_method = None,
                       source_observation_id = None, fd_confidence = None,
                       alternatives = None \<rparr>)"
    by (simp add: meta_canonical_def)
  have cu: "meta_canonical ''currency'' = Some (Raw ''USD'')" by (simp add: meta_canonical_def)
  from decision_records_metadata_fields [where canonical = meta_canonical
      and py_sum = example_sum and py_div = example_div
      and idv = "Raw ''tx1''" and now = example_now and t = 0 and str_of = example_str_of
      and schema_keys = "[''amount'', ''description'', ''currency'']"
      and observations = "[example_observation]" and n = 0, OF i]
  obtain d where
    run: "create_reconciliation_decision example_sum example_div example_now 0 example_str_of
          [''amount'', ''description'', ''currency''] [example_observation] meta_canonical 0 = Inr d"
    and all: "\<forall>k \<in> set [''amount'', ''description'', ''currency''].
            (\<forall>m. meta_canonical k = Some (Meta m) \<longrightarrow>
                map_of (field_strategies d) k =
                  Some \<lparr> strategy = (case reconciliation_method m of
                                       None \<Rightarrow> ''unknown'' | Some x \<Rightarrow> x),
                         chosen_obs = (case source_observation_id m of
                                         None \<Rightarrow> ''unknown'' | Some ob \<Rightarrow> ob),
                         fs_confidence = (case fd_confidence m of None \<Rightarrow> 1 | Some c \<Rightarrow> c),
                         fs_alternatives = (case alternatives m of None \<Rightarrow> [] | Some a \<Rightarrow> a) \<rparr>
              \<and> ''attr_'' @ example_str_of (Raw ''tx1'') @ ''_'' @ k \<in> set (created_statement_ids d))
          \<and> (\<forall>v. meta_canonical k = Some (Raw v) \<longrightarrow>
                map_of (field_strategies d) k = None
              \<and> ''attr_'' @ example_str_of (Raw ''tx1'') @ ''_'' @ k \<notin> set (created_statement_ids d))"
    by (elim exE conjE)
  have s: "example_str_of (Raw ''tx1'') = ''tx1''" by (simp add: example_str_of_def)
  have kd: "''description'' \<in> set [''amount'', ''description'', ''currency'']"
    and kc: "''currency'' \<in> set [''amount'', ''description'', ''currency'']" by simp_all
  from bspec [OF all kd] de
  have a: "map_of (field_strategies d) ''description'' =
          Some \<lparr> strategy = ''unknown'', chosen_obs = ''unknown'', fs_confidence = 1,
                 fs_alternatives = [] \<rparr>
      \<and> ''attr_tx1_description'' \<in> set (created_statement_ids d)"
    unfolding s by simp
  from bspec [OF all kc] cu
  have b: "map_of (field_strategies d) ''currency'' = None
      \<and> ''attr_tx1_currency'' \<notin> set (created_statement_ids d)"
    unfolding s by simp
  show ?thesis
    by (rule exI [of _ d]) (intro conjI run a [THEN conjunct1] a [THEN conjunct2]
        b [THEN conjunct1] b [THEN conjunct2])
qed

text \<open>
  Claim C7 as stated fails: \<open>amount\<close> is a schema key present on the record
  \<open>raw_canonical\<close>, as a raw value, and the decision has neither a field strategy nor a
  statement id for it.
\<close>

theorem raw_field_omitted_counterexample:
  "create_reconciliation_decision example_sum example_div example_now 0 example_str_of [''amount'']
     [example_observation] raw_canonical 0
   = Inr \<lparr> decision_id = ''recon_decision_000000'',
           decision_timestamp = example_now 1,
           observation_ids = [Some ''obs1''],
           cluster_metadata = \<lparr> observation_count = 1, data_sources = {''unknown''},
                                reconciliation_timestamp = example_now 0 \<rparr>,
           field_strategies = [],
           created_statement_ids = [],
           decision_confidence = 1,
           decision_method = ''single_source'',
           decision_created_at = example_now 2 \<rparr>"
  by (simp add: create_reconciliation_decision_def raw_canonical_def example_observation_def
      obs_ident_def obs_data_source_def overall_confidence_def fmt06d_0 numeral_2_eq_2)

section \<open>Statement ids\<close>

text \<open>
  Claim C8 on the code. The id is a function of prefix, subject, predicate and clock
  reading, so two successive calls for the same subject and predicate whose readings fall
  into the same microsecond return the same id.
\<close>

theorem generate_statement_id_collision:
  "generate_statement_id stuck_clock 0 ''attr'' ''evt_tx1'' ''amount''
     = (''attr_evt_tx1_amount_20251014100000123456'', 1)
   \<and> generate_statement_id stuck_clock 1 ''attr'' ''evt_tx1'' ''amount''
     = (''attr_evt_tx1_amount_20251014100000123456'', 2)"
  by (simp add: generate_statement_id_def stuck_clock_def)

end
